theory Spec2Isabelle
  imports Complex_Main
begin

section \<open>JavaScript values\<close>

text \<open>
  A JavaScript string is a sequence of UTF-16 code units; a code unit is a natural number.
  \<open>lit\<close> turns an ASCII literal of the source into such a sequence.
\<close>

type_synonym jsstring = "nat list"

definition lit :: "string \<Rightarrow> jsstring" where
  "lit s = map of_char s"

text \<open>
  \<^verbatim>\<open>String.prototype.trim\<close> removes the white space and line terminator code units of
  ECMAScript from both ends: TAB, LF, VT, FF, CR, SP, NBSP, U+1680, U+2000 to U+200A,
  U+2028, U+2029, U+202F, U+205F, U+3000 and the byte order mark U+FEFF.
\<close>

definition isWhiteSpace :: "nat \<Rightarrow> bool" where
  "isWhiteSpace c \<longleftrightarrow>
     c \<in> {0x9, 0xA, 0xB, 0xC, 0xD, 0x20, 0xA0, 0x1680, 0x2028, 0x2029, 0x202F, 0x205F,
          0x3000, 0xFEFF}
     \<or> (0x2000 \<le> c \<and> c \<le> 0x200A)"

definition trim :: "jsstring \<Rightarrow> jsstring" where
  "trim s = rev (dropWhile isWhiteSpace (rev (dropWhile isWhiteSpace s)))"

text \<open>
  What \<^verbatim>\<open>response.json()\<close> delivers. \<open>undefined\<close> is not a JSON value: an expression
  that may be \<open>undefined\<close> has type \<open>json option\<close>, with \<open>None\<close> for \<open>undefined\<close>.
  The numeric value of a number is never inspected by the services.
\<close>

datatype json =
    JNull
  | JBool bool
  | JNum real
  | JStr jsstring
  | JArr "json list"
  | JObj "(jsstring \<times> json) list"

text \<open>
  \<^verbatim>\<open>v.name\<close> on a value that is neither \<open>null\<close> nor \<open>undefined\<close>, for the names the
  services read (\<open>candidates\<close>, \<open>content\<close>, \<open>parts\<close>, \<open>text\<close>, \<open>apiKey\<close>): none of them is
  a property of an array, a string, a number or a boolean. Where a parsed JSON object
  repeats a key, the last occurrence counts.
\<close>

fun getProp :: "json \<Rightarrow> jsstring \<Rightarrow> json option" where
  "getProp (JObj kvs) k = map_of (rev kvs) k"
| "getProp _ k = None"

text \<open>\<^verbatim>\<open>v[0]\<close> on a value that is neither \<open>null\<close> nor \<open>undefined\<close>.\<close>

fun getIndex0 :: "json \<Rightarrow> json option" where
  "getIndex0 (JArr xs) = (case xs of [] \<Rightarrow> None | x # _ \<Rightarrow> Some x)"
| "getIndex0 (JStr s) = (case s of [] \<Rightarrow> None | c # _ \<Rightarrow> Some (JStr [c]))"
| "getIndex0 (JObj kvs) = map_of (rev kvs) (lit ''0'')"
| "getIndex0 _ = None"

text \<open>Optional chaining \<^verbatim>\<open>v?.\<close>: \<open>undefined\<close> when \<open>v\<close> is \<open>null\<close> or \<open>undefined\<close>.\<close>

definition optChain :: "json option \<Rightarrow> (json \<Rightarrow> json option) \<Rightarrow> json option" where
  "optChain v f = (case v of None \<Rightarrow> None | Some JNull \<Rightarrow> None | Some x \<Rightarrow> f x)"

text \<open>\<^verbatim>\<open>s || d\<close> for an optional string: \<open>undefined\<close> and the empty string are falsy.\<close>

definition orElse :: "jsstring option \<Rightarrow> jsstring \<Rightarrow> jsstring" where
  "orElse s d = (case s of None \<Rightarrow> d | Some t \<Rightarrow> if t = [] then d else t)"

section \<open>translationService.ts\<close>

record TranslationRequest =
  rq_text :: jsstring
  rq_fromLanguage :: jsstring
  rq_toLanguage :: jsstring

record TranslationResponse =
  rs_translatedText :: jsstring
  rs_confidence :: real

text \<open>
  The network. \<open>fetch\<close> either rejects or resolves with a response; \<open>body\<close> is what
  \<^verbatim>\<open>response.json()\<close> resolves with, \<open>None\<close> when it rejects (the body is not JSON).
  A request is a GET of a URL, or a POST of a JSON body to a URL with a \<open>key\<close> query
  parameter. \<open>localApiKey\<close> is \<^verbatim>\<open>import.meta.env.VITE_GEMINI_API_KEY\<close>.
\<close>

record response =
  ok :: bool
  status :: nat
  body :: "json option"

datatype fetch_result = Rejects | Resolves response

datatype request =
    GET jsstring
  | POST jsstring "json option" json

record remote =
  localApiKey :: "jsstring option"
  fetch :: "request \<Rightarrow> fetch_result"

text \<open>
  What is thrown inside the service. The thrown value is only written to the console
  and never reaches a caller, so the kinds stand for the messages:
  \<open>ApiKeyNotConfigured\<close> for \<^verbatim>\<open>API key not configured. ...\<close>, \<open>TranslationApiError s\<close> for
  \<^verbatim>\<open>Translation API error: ${response.status}\<close>, \<open>FetchRejected\<close> and \<open>JsonRejected\<close> for a
  rejected \<open>fetch\<close> and \<^verbatim>\<open>response.json()\<close>, \<open>TypeError\<close> for a property read on \<open>null\<close>
  or a call of something that is not a function.
\<close>

datatype failure =
    ApiKeyNotConfigured
  | FetchRejected
  | TranslationApiError nat
  | JsonRejected
  | TypeError

definition GEMINI_API_URL :: jsstring where
  "GEMINI_API_URL =
     lit ''https://generativelanguage.googleapis.com/v1beta/models/gemini-pro:generateContent''"

text \<open>
  The production branch of \<open>getApiKey\<close>: every failure inside its \<open>try\<close> (a rejected
  fetch, a response that is not OK, a body that is not JSON, \<open>data\<close> being \<open>null\<close>) is
  caught and rethrown as the one error \<open>ApiKeyNotConfigured\<close>.
\<close>

definition getApiKey_server :: "remote \<Rightarrow> failure + json option" where
  "getApiKey_server env =
     (case fetch env (GET (lit ''/functions/v1/get-gemini-key'')) of
        Rejects \<Rightarrow> Inl ApiKeyNotConfigured
      | Resolves r \<Rightarrow>
          if \<not> ok r then Inl ApiKeyNotConfigured
          else (case body r of
                  None \<Rightarrow> Inl ApiKeyNotConfigured
                | Some data \<Rightarrow>
                    if data = JNull then Inl ApiKeyNotConfigured
                    else Inr (getProp data (lit ''apiKey''))))"

definition getApiKey :: "remote \<Rightarrow> failure + json option" where
  "getApiKey env =
     (case localApiKey env of
        None \<Rightarrow> getApiKey_server env
      | Some k \<Rightarrow> if k \<noteq> [] then Inr (Some (JStr k)) else getApiKey_server env)"

definition prompt :: "TranslationRequest \<Rightarrow> jsstring" where
  "prompt req =
     lit ''Translate the following text from '' @ rq_fromLanguage req @ lit '' to ''
       @ rq_toLanguage req @ lit ''. '' @ [0xA]
     @ lit ''      Only return the translated text, nothing else.'' @ [0xA]
     @ lit ''      '' @ [0xA]
     @ lit ''      Text to translate: '' @ [0x22] @ rq_text req @ [0x22]"

definition requestBody :: "jsstring \<Rightarrow> json" where
  "requestBody p =
     JObj [(lit ''contents'',
            JArr [JObj [(lit ''parts'', JArr [JObj [(lit ''text'', JStr p)]])]])]"

text \<open>
  \<^verbatim>\<open>data.candidates?.[0]?.content?.parts?.[0]?.text?.trim()\<close>: the first read is not
  optional and throws on \<open>null\<close>; \<open>trim\<close> is called on whatever \<open>text\<close> holds, which
  throws unless it is a string.
\<close>

definition candidateText :: "json \<Rightarrow> failure + jsstring option" where
  "candidateText data =
     (if data = JNull then Inl TypeError
      else
        (case optChain (optChain (optChain (optChain (optChain
                 (getProp data (lit ''candidates'')) getIndex0)
                 (\<lambda>v. getProp v (lit ''content'')))
                 (\<lambda>v. getProp v (lit ''parts'')))
                 getIndex0)
                 (\<lambda>v. getProp v (lit ''text''))
         of
           None \<Rightarrow> Inr None
         | Some JNull \<Rightarrow> Inr None
         | Some (JStr s) \<Rightarrow> Inr (Some (trim s))
         | Some _ \<Rightarrow> Inl TypeError))"

text \<open>
  The \<open>try\<close> block of \<open>translateText\<close> up to \<^verbatim>\<open>const data = await response.json()\<close>:
  the transport level.
\<close>

definition translateText_data :: "remote \<Rightarrow> TranslationRequest \<Rightarrow> failure + json" where
  "translateText_data env req =
     (case getApiKey env of
        Inl e \<Rightarrow> Inl e
      | Inr apiKey \<Rightarrow>
          (case fetch env (POST GEMINI_API_URL apiKey (requestBody (prompt req))) of
             Rejects \<Rightarrow> Inl FetchRejected
           | Resolves r \<Rightarrow>
               if \<not> ok r then Inl (TranslationApiError (status r))
               else (case body r of None \<Rightarrow> Inl JsonRejected | Some data \<Rightarrow> Inr data)))"

text \<open>The whole \<open>try\<close> block: \<open>Inl\<close> when it throws, \<open>Inr\<close> what it returns.\<close>

definition translateText_try :: "remote \<Rightarrow> TranslationRequest \<Rightarrow> failure + TranslationResponse" where
  "translateText_try env req =
     (case translateText_data env req of
        Inl e \<Rightarrow> Inl e
      | Inr data \<Rightarrow>
          (case candidateText data of
             Inl e \<Rightarrow> Inl e
           | Inr t \<Rightarrow>
               Inr \<lparr>rs_translatedText = orElse t (rq_text req), rs_confidence = 0.95\<rparr>))"

text \<open>\<open>TranslationService.translateText\<close>: the \<open>catch\<close> falls back to the original text.\<close>

definition TranslationService_translateText :: "remote \<Rightarrow> TranslationRequest \<Rightarrow> TranslationResponse" where
  "TranslationService_translateText env req =
     (case translateText_try env req of
        Inl e \<Rightarrow> \<lparr>rs_translatedText = rq_text req, rs_confidence = 0\<rparr>
      | Inr r \<Rightarrow> r)"

section \<open>speechService.ts\<close>

text \<open>
  The singleton \<open>SpeechService\<close>: whether the browser gave it a recognition object and a
  synthesis object.
\<close>

record SpeechService =
  has_recognition :: bool
  has_synthesis :: bool

definition isSupported :: "SpeechService \<Rightarrow> bool" where
  "isSupported svc \<longleftrightarrow> has_recognition svc \<and> has_synthesis svc"

record SpeechRecognitionResult =
  sr_text :: jsstring
  sr_confidence :: real
  sr_language :: jsstring

text \<open>
  The options the hook passes to \<open>synthesizeSpeech\<close>; it never passes \<open>voice\<close>, so the
  voice lookup of the service is not reached and the field is left out.
\<close>

record SpeechSynthesisOptions =
  so_text :: jsstring
  so_language :: jsstring
  so_rate :: "real option"
  so_pitch :: "real option"
  so_volume :: "real option"

record utterance =
  u_text :: jsstring
  u_lang :: jsstring
  u_rate :: real
  u_pitch :: real
  u_volume :: real

text \<open>\<^verbatim>\<open>x || d\<close> for an optional number: \<open>undefined\<close> and \<open>0\<close> are falsy.\<close>

definition numOr :: "real option \<Rightarrow> real \<Rightarrow> real" where
  "numOr x d = (case x of None \<Rightarrow> d | Some v \<Rightarrow> if v = 0 then d else v)"

text \<open>
  A value that is thrown or rejects a promise and reaches the hook: an \<open>Error\<close> with its
  message, or anything else.
\<close>

datatype thrown = Error jsstring | NonError

text \<open>
  The synchronous part of \<open>synthesizeSpeech\<close>: the promise is rejected at once when there
  is no synthesis object, otherwise the utterance is handed to \<^verbatim>\<open>synthesis.speak\<close>.
\<close>

definition synthesizeSpeech :: "SpeechService \<Rightarrow> SpeechSynthesisOptions \<Rightarrow> thrown + utterance" where
  "synthesizeSpeech svc options =
     (if \<not> has_synthesis svc then
        Inl (Error (lit ''Speech synthesis not supported in this browser''))
      else
        Inr \<lparr>u_text = so_text options,
             u_lang = (if so_language options = [] then lit ''en-US'' else so_language options),
             u_rate = numOr (so_rate options) 1.0,
             u_pitch = numOr (so_pitch options) 1.0,
             u_volume = numOr (so_volume options) 1.0\<rparr>)"

section \<open>useVoiceTranslation.ts\<close>

text \<open>
  The functions of the hook are asynchronous. Each is cut at its \<open>await\<close>s into the parts
  that run without interruption: the part from the call to the first \<open>await\<close> keeps the
  name of the function, and each later part is named after what it waited for. A part
  takes the state of the hook and returns the new one. The props (\<open>fromLanguage\<close>,
  \<open>toLanguage\<close> and the callbacks) stay the same during a run. Writes to the console are
  left out.
\<close>

text \<open>
  A confidence is a real number: the recognition and the translator deliver numbers, not
  \<open>NaN\<close>, and on those \<^verbatim>\<open>Math.min\<close> is the minimum.
\<close>

record VoiceTranslationResult =
  originalText :: jsstring
  translatedText :: jsstring
  fromLanguage :: jsstring
  toLanguage :: jsstring
  confidence :: real

text \<open>
  The props of the hook. The two callbacks are the caller's: an invocation is recorded as
  an event of the trace.
\<close>

record props =
  p_fromLanguage :: jsstring
  p_toLanguage :: jsstring

text \<open>
  What the hook does to the outside, in order: its two callbacks, the toasts (title,
  description, destructive variant), and its calls into the browser and the translator.
\<close>

datatype event =
    OnError jsstring
  | OnTranslationComplete VoiceTranslationResult
  | Toast jsstring jsstring bool
  | RecognitionStart jsstring
  | RecognitionStop
  | TranslateCall TranslationRequest
  | SynthesisSpeak utterance
  | SynthesisCancel

datatype promise_state = Pending | Settled

text \<open>
  \<open>translateAndSpeak\<close> suspended at \<^verbatim>\<open>await translationService.translateText\<close>, and at
  \<^verbatim>\<open>await speechService.synthesizeSpeech\<close>: the local variables in scope.
\<close>

record translating_frame =
  tf_text :: jsstring
  tf_speechConfidence :: real

record speaking_frame =
  sf_text :: jsstring
  sf_speechConfidence :: real
  sf_translationResult :: TranslationResponse
  sf_result :: VoiceTranslationResult

text \<open>
  The state of one hook instance: the three status flags, \<^verbatim>\<open>abortControllerRef.current\<close>
  (\<open>None\<close> for \<open>null\<close>, otherwise whether the controller is aborted), the promise that the
  handlers installed on the recognition object settle (\<open>None\<close> before any handler is
  installed), the suspended calls of \<open>translateAndSpeak\<close>, and the trace of events so far.
\<close>

record hook =
  isListening :: bool
  isTranslating :: bool
  isSpeaking :: bool
  abortController :: "bool option"
  recognitionPromise :: "promise_state option"
  translating :: "translating_frame list"
  speaking :: "speaking_frame list"
  trace :: "event list"

definition initial :: hook where
  "initial = \<lparr>isListening = False, isTranslating = False, isSpeaking = False,
      abortController = None, recognitionPromise = None, translating = [], speaking = [],
      trace = []\<rparr>"

definition emit :: "event \<Rightarrow> hook \<Rightarrow> hook" where
  "emit e h = h\<lparr>trace := trace h @ [e]\<rparr>"

definition setIsListening :: "bool \<Rightarrow> hook \<Rightarrow> hook" where
  "setIsListening b h = h\<lparr>isListening := b\<rparr>"

definition setIsTranslating :: "bool \<Rightarrow> hook \<Rightarrow> hook" where
  "setIsTranslating b h = h\<lparr>isTranslating := b\<rparr>"

definition setIsSpeaking :: "bool \<Rightarrow> hook \<Rightarrow> hook" where
  "setIsSpeaking b h = h\<lparr>isSpeaking := b\<rparr>"

definition onError :: "jsstring \<Rightarrow> hook \<Rightarrow> hook" where
  "onError error h = emit (OnError error) h"

definition onTranslationComplete :: "VoiceTranslationResult \<Rightarrow> hook \<Rightarrow> hook" where
  "onTranslationComplete result h = emit (OnTranslationComplete result) h"

definition toast :: "jsstring \<Rightarrow> jsstring \<Rightarrow> bool \<Rightarrow> hook \<Rightarrow> hook" where
  "toast title description destructive h = emit (Toast title description destructive) h"

subsection \<open>translateAndSpeak\<close>

text \<open>Up to the first \<open>await\<close>: the translator is called and the call is suspended.\<close>

definition translateAndSpeak :: "props \<Rightarrow> jsstring \<Rightarrow> real \<Rightarrow> hook \<Rightarrow> hook" where
  "translateAndSpeak p text speechConfidence h =
     (let h1 = setIsTranslating True h;
          h2 = emit (TranslateCall \<lparr>rq_text = text, rq_fromLanguage = p_fromLanguage p,
                 rq_toLanguage = p_toLanguage p\<rparr>) h1
      in h2\<lparr>translating := translating h2
             @ [\<lparr>tf_text = text, tf_speechConfidence = speechConfidence\<rparr>]\<rparr>)"

text \<open>The \<open>catch\<close> block followed by the \<open>finally\<close> block.\<close>

definition translateAndSpeak_catch :: "thrown \<Rightarrow> hook \<Rightarrow> hook" where
  "translateAndSpeak_catch error h =
     (let h1 = setIsTranslating False h;
          h2 = setIsSpeaking False h1;
          errorMessage = (case error of Error m \<Rightarrow> m | NonError \<Rightarrow> lit ''Translation failed'');
          h3 = onError errorMessage h2;
          h4 = toast (lit ''Translation failed'') errorMessage True h3
      in setIsTranslating False h4)"

text \<open>
  From the translator's answer to the second \<open>await\<close>. \<open>translateText\<close> never rejects, so
  the call always resumes here.
\<close>

definition translateAndSpeak_translated ::
    "SpeechService \<Rightarrow> props \<Rightarrow> translating_frame \<Rightarrow> TranslationResponse \<Rightarrow> hook \<Rightarrow> hook" where
  "translateAndSpeak_translated svc p f translationResult h =
     (let result = \<lparr>originalText = tf_text f,
                     translatedText = rs_translatedText translationResult,
                     fromLanguage = p_fromLanguage p,
                     toLanguage = p_toLanguage p,
                     confidence = min (tf_speechConfidence f) (rs_confidence translationResult)\<rparr>;
          h1 = setIsSpeaking True h
      in case synthesizeSpeech svc
                \<lparr>so_text = rs_translatedText translationResult, so_language = p_toLanguage p,
                 so_rate = Some 0.9, so_pitch = Some 1.0, so_volume = Some 0.8\<rparr>
         of
           Inl error \<Rightarrow> translateAndSpeak_catch error h1
         | Inr u \<Rightarrow>
             (let h2 = emit (SynthesisSpeak u) h1
              in h2\<lparr>speaking := speaking h2
                     @ [\<lparr>sf_text = tf_text f, sf_speechConfidence = tf_speechConfidence f,
                         sf_translationResult = translationResult, sf_result = result\<rparr>]\<rparr>))"

text \<open>After the utterance ended: the rest of the \<open>try\<close> block, then the \<open>finally\<close> block.\<close>

definition translateAndSpeak_spoken :: "speaking_frame \<Rightarrow> hook \<Rightarrow> hook" where
  "translateAndSpeak_spoken f h =
     (let h1 = setIsSpeaking False h;
          h2 = onTranslationComplete (sf_result f) h1;
          h3 = toast (lit ''Translation complete'')
                 ([0x22] @ sf_text f @ [0x22, 0x20, 0x2192, 0x20, 0x22]
                    @ rs_translatedText (sf_translationResult f) @ [0x22]) False h2
      in setIsTranslating False h3)"

subsection \<open>startListening\<close>

text \<open>The error callback that \<open>startListening\<close> hands to \<open>recognizeSpeech\<close>.\<close>

definition startListening_onError :: "jsstring \<Rightarrow> hook \<Rightarrow> hook" where
  "startListening_onError error h = setIsListening False (onError error h)"

definition startListening_catch :: "thrown \<Rightarrow> hook \<Rightarrow> hook" where
  "startListening_catch error h =
     (let h1 = setIsListening False h;
          errorMessage = (case error of Error m \<Rightarrow> m | NonError \<Rightarrow> lit ''Unknown error occurred'');
          h2 = onError errorMessage h1
      in toast (lit ''Speech recognition failed'') errorMessage True h2)"

text \<open>
  \<^verbatim>\<open>recognition.start()\<close> is the browser's: it returns, or it throws (it does when the
  recognition is already started).
\<close>

datatype start_outcome = Started | StartThrows thrown

text \<open>
  The executor of the promise of \<open>recognizeSpeech\<close>. It returns \<open>Some e\<close> when the promise
  is rejected with \<open>e\<close> before \<open>recognizeSpeech\<close> returns and \<open>None\<close> when the promise is
  pending, with its handlers installed on the recognition object.
\<close>

definition recognizeSpeech ::
    "SpeechService \<Rightarrow> jsstring \<Rightarrow> start_outcome \<Rightarrow> hook \<Rightarrow> thrown option \<times> hook" where
  "recognizeSpeech svc language start h =
     (if \<not> has_recognition svc then
        (let error = lit ''Speech recognition not supported in this browser''
         in (Some (Error error), startListening_onError error h))
      else
        (case start of
           Started \<Rightarrow>
             (None, emit (RecognitionStart language) (h\<lparr>recognitionPromise := Some Pending\<rparr>))
         | StartThrows e \<Rightarrow> (Some e, h\<lparr>recognitionPromise := Some Settled\<rparr>)))"

definition startListening :: "SpeechService \<Rightarrow> props \<Rightarrow> start_outcome \<Rightarrow> hook \<Rightarrow> hook" where
  "startListening svc p start h =
     (if \<not> isSupported svc then
        (let error = lit ''Speech recognition is not supported in this browser'';
             h1 = onError error h
         in toast (lit ''Browser not supported'') error True h1)
      else
        (let h1 = setIsListening True h;
             h2 = h1\<lparr>abortController := Some False\<rparr>
         in case recognizeSpeech svc (p_fromLanguage p) start h2 of
              (None, h3) \<Rightarrow> h3
            | (Some e, h3) \<Rightarrow> startListening_catch e h3))"

text \<open>After \<open>recognizeSpeech\<close> resolved: the rest of the \<open>try\<close> block.\<close>

definition startListening_recognized :: "props \<Rightarrow> SpeechRecognitionResult \<Rightarrow> hook \<Rightarrow> hook" where
  "startListening_recognized p result h =
     (let h1 = setIsListening False h
      in if trim (sr_text result) \<noteq> [] then
           translateAndSpeak p (sr_text result) (sr_confidence result) h1
         else h1)"

text \<open>
  The two handlers that \<open>recognizeSpeech\<close> installs. A promise settles once: resolving or
  rejecting a settled promise does nothing, the callbacks before it still run.
\<close>

definition recognition_onresult :: "props \<Rightarrow> jsstring \<Rightarrow> real \<Rightarrow> hook \<Rightarrow> hook" where
  "recognition_onresult p transcript conf h =
     (case recognitionPromise h of
        None \<Rightarrow> h
      | Some Settled \<Rightarrow> h
      | Some Pending \<Rightarrow>
          startListening_recognized p
            \<lparr>sr_text = transcript, sr_confidence = conf, sr_language = p_fromLanguage p\<rparr>
            (h\<lparr>recognitionPromise := Some Settled\<rparr>))"

definition recognition_onerror :: "jsstring \<Rightarrow> hook \<Rightarrow> hook" where
  "recognition_onerror err h =
     (case recognitionPromise h of
        None \<Rightarrow> h
      | Some st \<Rightarrow>
          (let error = lit ''Speech recognition error: '' @ err;
               h1 = startListening_onError error h
           in case st of
                Settled \<Rightarrow> h1
              | Pending \<Rightarrow> startListening_catch (Error error) (h1\<lparr>recognitionPromise := Some Settled\<rparr>)))"

subsection \<open>stopListening, stopSpeaking, translateText\<close>

definition stopListening :: "SpeechService \<Rightarrow> hook \<Rightarrow> hook" where
  "stopListening svc h =
     (let h1 = (if has_recognition svc then emit RecognitionStop h else h);
          h2 = setIsListening False h1
      in case abortController h2 of
           None \<Rightarrow> h2
         | Some a \<Rightarrow> h2\<lparr>abortController := Some True\<rparr>)"

text \<open>\<open>speaking_now\<close> is the browser's \<^verbatim>\<open>synthesis.speaking\<close> at the call.\<close>

definition stopSpeaking :: "SpeechService \<Rightarrow> bool \<Rightarrow> hook \<Rightarrow> hook" where
  "stopSpeaking svc speaking_now h =
     (let h1 = (if has_synthesis svc \<and> speaking_now then emit SynthesisCancel h else h)
      in setIsSpeaking False h1)"

text \<open>The hook's \<open>translateText\<close>: \<open>speechConfidence\<close> takes its default.\<close>

definition translateText :: "props \<Rightarrow> jsstring \<Rightarrow> hook \<Rightarrow> hook" where
  "translateText p text h = translateAndSpeak p text 1.0 h"

subsection \<open>The hook as a reactive system\<close>

text \<open>
  An input is a call of one of the hook's functions or something the outside delivers:
  the recognition object fires \<open>onresult\<close> or \<open>onerror\<close>; the \<open>i\<close>-th suspended
  \<open>translateText\<close> of the service returns, having run against the given network; the
  utterance of the \<open>i\<close>-th suspended \<open>synthesizeSpeech\<close> fires \<open>onend\<close> or \<open>onerror\<close>.
  Each input runs to completion; the states between inputs are the observable points.
\<close>

datatype input =
    CallStartListening start_outcome
  | CallStopListening
  | CallStopSpeaking bool
  | CallTranslateText jsstring
  | RecognitionResult jsstring real
  | RecognitionError jsstring
  | TranslationSettled nat remote
  | UtteranceEnd nat
  | UtteranceError nat jsstring

definition remove_nth :: "nat \<Rightarrow> 'a list \<Rightarrow> 'a list" where
  "remove_nth i xs = take i xs @ drop (Suc i) xs"

fun step :: "SpeechService \<Rightarrow> props \<Rightarrow> input \<Rightarrow> hook \<Rightarrow> hook" where
  "step svc p (CallStartListening start) h = startListening svc p start h"
| "step svc p CallStopListening h = stopListening svc h"
| "step svc p (CallStopSpeaking speaking_now) h = stopSpeaking svc speaking_now h"
| "step svc p (CallTranslateText text) h = translateText p text h"
| "step svc p (RecognitionResult transcript conf) h = recognition_onresult p transcript conf h"
| "step svc p (RecognitionError err) h = recognition_onerror err h"
| "step svc p (TranslationSettled i env) h =
     (if i < length (translating h) then
        (let f = translating h ! i
         in translateAndSpeak_translated svc p f
              (TranslationService_translateText env
                 \<lparr>rq_text = tf_text f, rq_fromLanguage = p_fromLanguage p,
                  rq_toLanguage = p_toLanguage p\<rparr>)
              (h\<lparr>translating := remove_nth i (translating h)\<rparr>))
      else h)"
| "step svc p (UtteranceEnd i) h =
     (if i < length (speaking h) then
        translateAndSpeak_spoken (speaking h ! i) (h\<lparr>speaking := remove_nth i (speaking h)\<rparr>)
      else h)"
| "step svc p (UtteranceError i err) h =
     (if i < length (speaking h) then
        translateAndSpeak_catch (Error (lit ''Speech synthesis error: '' @ err))
          (h\<lparr>speaking := remove_nth i (speaking h)\<rparr>)
      else h)"

fun run :: "SpeechService \<Rightarrow> props \<Rightarrow> input list \<Rightarrow> hook \<Rightarrow> hook" where
  "run svc p [] h = h"
| "run svc p (i # is) h = run svc p is (step svc p i h)"

section \<open>Example inputs\<close>

text \<open>
  A browser with both speech objects, an English to Spanish hook, and three networks: one
  that answers \<open>Hola\<close>, one whose \<open>fetch\<close> rejects, and one that answers an object
  without candidates.
\<close>

definition svc0 :: SpeechService where
  "svc0 = \<lparr>has_recognition = True, has_synthesis = True\<rparr>"

definition p0 :: props where
  "p0 = \<lparr>p_fromLanguage = lit ''en-US'', p_toLanguage = lit ''es-ES''\<rparr>"

definition req0 :: TranslationRequest where
  "req0 = \<lparr>rq_text = lit ''Hello'', rq_fromLanguage = lit ''en-US'',
           rq_toLanguage = lit ''es-ES''\<rparr>"

definition hola :: json where
  "hola = JObj [(lit ''candidates'',
            JArr [JObj [(lit ''content'',
              JObj [(lit ''parts'', JArr [JObj [(lit ''text'', JStr (lit ''Hola''))]])])]])]"

definition env_ok :: remote where
  "env_ok = \<lparr>localApiKey = Some (lit ''k''),
             fetch = (\<lambda>r. Resolves \<lparr>ok = True, status = 200, body = Some hola\<rparr>)\<rparr>"

definition env_down :: remote where
  "env_down = \<lparr>localApiKey = Some (lit ''k''), fetch = (\<lambda>r. Rejects)\<rparr>"


section \<open>Notions used in the statements\<close>

text \<open>
  The request, the utterance, the result and the closing toast that \<open>translateAndSpeak\<close>
  builds for a text, a translation and a confidence.
\<close>

definition request_of :: "props \<Rightarrow> jsstring \<Rightarrow> TranslationRequest" where
  "request_of p text =
     \<lparr>rq_text = text, rq_fromLanguage = p_fromLanguage p, rq_toLanguage = p_toLanguage p\<rparr>"

definition utterance_of :: "props \<Rightarrow> jsstring \<Rightarrow> utterance" where
  "utterance_of p text =
     \<lparr>u_text = text,
      u_lang = (if p_toLanguage p = [] then lit ''en-US'' else p_toLanguage p),
      u_rate = 0.9, u_pitch = 1, u_volume = 0.8\<rparr>"

definition result_of :: "props \<Rightarrow> jsstring \<Rightarrow> jsstring \<Rightarrow> real \<Rightarrow> VoiceTranslationResult" where
  "result_of p text translated c =
     \<lparr>originalText = text, translatedText = translated, fromLanguage = p_fromLanguage p,
      toLanguage = p_toLanguage p, confidence = c\<rparr>"

definition complete_toast :: "jsstring \<Rightarrow> jsstring \<Rightarrow> event" where
  "complete_toast text translated =
     Toast (lit ''Translation complete'')
       ([0x22] @ text @ [0x22, 0x20, 0x2192, 0x20, 0x22] @ translated @ [0x22]) False"

text \<open>The three status flags, as the caller of the hook reads them.\<close>

definition flags :: "hook \<Rightarrow> bool \<times> bool \<times> bool" where
  "flags h = (isListening h, isTranslating h, isSpeaking h)"

text \<open>
  A hook is idle when no flag is set, no call is suspended and no capture is pending.
  The inputs that start a pipeline, and the states of a hook that runs at most one
  pipeline: nothing is in flight and neither \<open>isTranslating\<close> nor \<open>isSpeaking\<close> is set, or
  one call of \<open>translateAndSpeak\<close> is suspended, \<open>isTranslating\<close> is set and the capture is
  over.
\<close>

definition idle :: "hook \<Rightarrow> bool" where
  "idle h \<longleftrightarrow>
     \<not> isListening h \<and> \<not> isTranslating h \<and> \<not> isSpeaking h
   \<and> translating h = [] \<and> speaking h = [] \<and> recognitionPromise h \<noteq> Some Pending"

fun starts_pipeline :: "input \<Rightarrow> bool" where
  "starts_pipeline (CallStartListening start) = True"
| "starts_pipeline (CallTranslateText text) = True"
| "starts_pipeline _ = False"

definition single_pipeline :: "hook \<Rightarrow> bool" where
  "single_pipeline h \<longleftrightarrow>
     (if translating h = [] \<and> speaking h = [] then \<not> isTranslating h \<and> \<not> isSpeaking h
      else length (translating h) + length (speaking h) = 1
         \<and> isTranslating h \<and> \<not> isListening h \<and> recognitionPromise h \<noteq> Some Pending
         \<and> (translating h = [] \<or> \<not> isSpeaking h))"

text \<open>
  The inputs of the translating and the speaking stage. The shape of an event forgets the
  value of the confidence in a result; \<open>statuses\<close> lists the flags at every observable
  point of a run. Two hooks are at the same point downstream when their flags agree and
  their suspended calls and traces agree up to the confidences, the first trace having
  some events \<open>pre\<close> more in front.
\<close>

fun downstream :: "input \<Rightarrow> bool" where
  "downstream (TranslationSettled i env) = True"
| "downstream (UtteranceEnd i) = True"
| "downstream (UtteranceError i err) = True"
| "downstream (CallStopSpeaking speaking_now) = True"
| "downstream _ = False"

fun shape :: "event \<Rightarrow> event" where
  "shape (OnTranslationComplete r) = OnTranslationComplete (r\<lparr>confidence := 0\<rparr>)"
| "shape e = e"

fun statuses :: "SpeechService \<Rightarrow> props \<Rightarrow> input list \<Rightarrow> hook \<Rightarrow> (bool \<times> bool \<times> bool) list" where
  "statuses svc p [] h = [flags h]"
| "statuses svc p (i # is) h = flags h # statuses svc p is (step svc p i h)"

definition frame_shape ::
    "speaking_frame \<Rightarrow> jsstring \<times> TranslationResponse \<times> VoiceTranslationResult" where
  "frame_shape g = (sf_text g, sf_translationResult g, (sf_result g)\<lparr>confidence := 0\<rparr>)"

definition same_downstream :: "event list \<Rightarrow> hook \<Rightarrow> hook \<Rightarrow> bool" where
  "same_downstream pre h1 h2 \<longleftrightarrow>
     flags h1 = flags h2
   \<and> map tf_text (translating h1) = map tf_text (translating h2)
   \<and> map frame_shape (speaking h1) = map frame_shape (speaking h2)
   \<and> map shape (trace h1) = pre @ map shape (trace h2)"

section \<open>Basic facts\<close>

lemmas hook_defs = emit_def setIsListening_def setIsTranslating_def setIsSpeaking_def onError_def
  onTranslationComplete_def toast_def translateAndSpeak_def translateAndSpeak_catch_def
  translateAndSpeak_translated_def translateAndSpeak_spoken_def startListening_onError_def
  startListening_catch_def recognizeSpeech_def startListening_def startListening_recognized_def
  recognition_onresult_def recognition_onerror_def stopListening_def stopSpeaking_def
  translateText_def synthesizeSpeech_def isSupported_def numOr_def remove_nth_def Let_def

subsection \<open>The translator\<close>

lemma translateText_confidence:
  "rs_confidence (TranslationService_translateText env req) =
     (case translateText_try env req of Inl e \<Rightarrow> 0 | Inr r \<Rightarrow> 0.95)"
  by (simp add: TranslationService_translateText_def translateText_try_def split: sum.splits)

lemma translateText_failure:
  "translateText_try env req = Inl e \<Longrightarrow>
   TranslationService_translateText env req = \<lparr>rs_translatedText = rq_text req, rs_confidence = 0\<rparr>"
  by (simp add: TranslationService_translateText_def)

text \<open>The three failures of the remote call that the specification names.\<close>

lemma network_error_fails:
  "getApiKey env = Inr k \<Longrightarrow>
   fetch env (POST GEMINI_API_URL k (requestBody (prompt req))) = Rejects \<Longrightarrow>
   translateText_try env req = Inl FetchRejected"
  by (simp add: translateText_try_def translateText_data_def)

lemma http_status_fails:
  "getApiKey env = Inr k \<Longrightarrow>
   fetch env (POST GEMINI_API_URL k (requestBody (prompt req))) = Resolves r \<Longrightarrow> \<not> ok r \<Longrightarrow>
   translateText_try env req = Inl (TranslationApiError (status r))"
  by (simp add: translateText_try_def translateText_data_def)

lemma parsing_fails:
  "getApiKey env = Inr k \<Longrightarrow>
   fetch env (POST GEMINI_API_URL k (requestBody (prompt req))) = Resolves r \<Longrightarrow> ok r \<Longrightarrow>
   body r = None \<Longrightarrow>
   translateText_try env req = Inl JsonRejected"
  by (simp add: translateText_try_def translateText_data_def)

lemma api_key_fails:
  "getApiKey env = Inl e \<Longrightarrow> translateText_try env req = Inl e"
  by (simp add: translateText_try_def translateText_data_def)

lemma env_down_fails: "translateText_try env_down req = Inl FetchRejected"
  by (simp add: translateText_try_def translateText_data_def getApiKey_def env_down_def lit_def)



lemma candidateText_hola: "candidateText hola = Inr (Some (lit ''Hola''))"
  by (simp add: candidateText_def optChain_def hola_def lit_def trim_def isWhiteSpace_def)

lemma env_ok_translates:
  "TranslationService_translateText env_ok req =
     \<lparr>rs_translatedText = lit ''Hola'', rs_confidence = 0.95\<rparr>"
  by (simp add: TranslationService_translateText_def translateText_try_def translateText_data_def
      getApiKey_def env_ok_def candidateText_hola orElse_def) (simp add: lit_def)

lemma env_down_translates:
  "TranslationService_translateText env_down req =
     \<lparr>rs_translatedText = rq_text req, rs_confidence = 0\<rparr>"
  by (simp add: translateText_failure [OF env_down_fails])


subsection \<open>Blank strings\<close>

lemma dropWhile_all: "(\<forall>x \<in> set (dropWhile P xs). P x) \<longleftrightarrow> (\<forall>x \<in> set xs. P x)"
  by (induction xs) auto

lemma trim_blank: "trim s = [] \<longleftrightarrow> (\<forall>c \<in> set s. isWhiteSpace c)"
  by (simp add: trim_def dropWhile_eq_Nil_conv dropWhile_all)

subsection \<open>Single steps of the hook\<close>

lemma translateText_step:
  "step svc p (CallTranslateText text) h =
     h\<lparr>isTranslating := True,
       trace := trace h @ [TranslateCall (request_of p text)],
       translating := translating h @ [\<lparr>tf_text = text, tf_speechConfidence = 1\<rparr>]\<rparr>"
  by (simp add: hook_defs request_of_def)

lemma startListening_step:
  "isSupported svc \<Longrightarrow>
   step svc p (CallStartListening Started) h =
     h\<lparr>isListening := True, abortController := Some False, recognitionPromise := Some Pending,
       trace := trace h @ [RecognitionStart (p_fromLanguage p)]\<rparr>"
  by (simp add: hook_defs)

lemma recognized_step:
  "recognitionPromise h = Some Pending \<Longrightarrow> trim t \<noteq> [] \<Longrightarrow>
   step svc p (RecognitionResult t c) h =
     h\<lparr>isListening := False, isTranslating := True, recognitionPromise := Some Settled,
       trace := trace h @ [TranslateCall (request_of p t)],
       translating := translating h @ [\<lparr>tf_text = t, tf_speechConfidence = c\<rparr>]\<rparr>"
  by (simp add: hook_defs request_of_def)

lemma blank_step:
  "recognitionPromise h = Some Pending \<Longrightarrow> trim t = [] \<Longrightarrow>
   step svc p (RecognitionResult t c) h = h\<lparr>isListening := False, recognitionPromise := Some Settled\<rparr>"
  by (simp add: hook_defs)

lemma translated_step:
  assumes "i < length (translating h)" and "has_synthesis svc"
    and "tr = TranslationService_translateText env (request_of p (tf_text (translating h ! i)))"
  shows "step svc p (TranslationSettled i env) h =
     h\<lparr>isSpeaking := True,
       translating := remove_nth i (translating h),
       trace := trace h @ [SynthesisSpeak (utterance_of p (rs_translatedText tr))],
       speaking := speaking h @
         [\<lparr>sf_text = tf_text (translating h ! i),
           sf_speechConfidence = tf_speechConfidence (translating h ! i),
           sf_translationResult = tr,
           sf_result = result_of p (tf_text (translating h ! i)) (rs_translatedText tr)
              (min (tf_speechConfidence (translating h ! i)) (rs_confidence tr))\<rparr>]\<rparr>"
  using assms by (simp add: hook_defs request_of_def utterance_of_def result_of_def)

lemma spoken_step:
  "i < length (speaking h) \<Longrightarrow>
   step svc p (UtteranceEnd i) h =
     h\<lparr>isSpeaking := False, isTranslating := False,
       speaking := remove_nth i (speaking h),
       trace := trace h @
         [OnTranslationComplete (sf_result (speaking h ! i)),
          complete_toast (sf_text (speaking h ! i))
            (rs_translatedText (sf_translationResult (speaking h ! i)))]\<rparr>"
  by (simp add: hook_defs complete_toast_def)

lemma remove_nth_last: "remove_nth (length xs) (xs @ [x]) = xs"
  by (simp add: remove_nth_def)

subsection \<open>Whole sessions\<close>

text \<open>
  A session of the direct text path and of the voice path, started in any state \<open>h\<close>: the
  call, then the answers of the outside for the frames that this session appended.
\<close>

lemma text_session:
  assumes "has_synthesis svc"
    and "tr = TranslationService_translateText env (request_of p text)"
  shows "run svc p [CallTranslateText text, TranslationSettled (length (translating h)) env,
            UtteranceEnd (length (speaking h))] h =
     h\<lparr>isTranslating := False, isSpeaking := False,
       trace := trace h @
         [TranslateCall (request_of p text),
          SynthesisSpeak (utterance_of p (rs_translatedText tr)),
          OnTranslationComplete (result_of p text (rs_translatedText tr) (min 1 (rs_confidence tr))),
          complete_toast text (rs_translatedText tr)]\<rparr>"
  using assms
  by (simp del: step.simps
      add: translateText_step translated_step [where tr = tr] spoken_step remove_nth_last)

lemma voice_session:
  assumes "isSupported svc" and "trim t \<noteq> []"
    and "tr = TranslationService_translateText env (request_of p t)"
  shows "run svc p [CallStartListening Started, RecognitionResult t c,
            TranslationSettled (length (translating h)) env,
            UtteranceEnd (length (speaking h))] h =
     h\<lparr>isListening := False, isTranslating := False, isSpeaking := False,
       abortController := Some False, recognitionPromise := Some Settled,
       trace := trace h @
         [RecognitionStart (p_fromLanguage p),
          TranslateCall (request_of p t),
          SynthesisSpeak (utterance_of p (rs_translatedText tr)),
          OnTranslationComplete (result_of p t (rs_translatedText tr) (min c (rs_confidence tr))),
          complete_toast t (rs_translatedText tr)]\<rparr>"
proof -
  have syn: "has_synthesis svc"
    using assms(1) by (simp add: isSupported_def)
  show ?thesis
    using assms syn
    by (simp del: step.simps
        add: startListening_step recognized_step translated_step [where tr = tr]
          spoken_step remove_nth_last)
qed

section \<open>Claims about the translator\<close>

text \<open>
  C3. For every text and language pair, when the remote translation call fails in any way
  (the \<open>try\<close> block of \<open>translateText\<close> throws: no API key, a rejected fetch, a status
  that is not OK, a body that is not JSON, see \<open>network_error_fails\<close>, \<open>http_status_fails\<close>,
  \<open>parsing_fails\<close> and \<open>api_key_fails\<close>), the translator returns the original text with
  confidence 0. For every suspended \<open>translateAndSpeak\<close> of that text the pipeline then goes
  on to the speaking stage: with a synthesis object the original text is handed to the
  synthesis, \<open>isSpeaking\<close> is set and the error callback is not invoked. Without a synthesis
  object the only error reported is that of the playback.
\<close>

theorem translation_failure_degrades:
  assumes "translateText_try env (request_of p text) = Inl e"
  shows "TranslationService_translateText env (request_of p text)
           = \<lparr>rs_translatedText = text, rs_confidence = 0\<rparr>
       \<and> (\<forall>svc h i. i < length (translating h) \<and> tf_text (translating h ! i) = text \<longrightarrow>
            (has_synthesis svc \<longrightarrow>
               isSpeaking (step svc p (TranslationSettled i env) h)
             \<and> trace (step svc p (TranslationSettled i env) h)
                 = trace h @ [SynthesisSpeak (utterance_of p text)])
          \<and> (\<not> has_synthesis svc \<longrightarrow>
               trace (step svc p (TranslationSettled i env) h)
                 = trace h @ [OnError (lit ''Speech synthesis not supported in this browser''),
                     Toast (lit ''Translation failed'')
                       (lit ''Speech synthesis not supported in this browser'') True]))"
proof -
  have tr: "TranslationService_translateText env (request_of p text)
              = \<lparr>rs_translatedText = text, rs_confidence = 0\<rparr>"
    using translateText_failure [OF assms] by (simp add: request_of_def)
  have speak: "isSpeaking (step svc p (TranslationSettled i env) h)
       \<and> trace (step svc p (TranslationSettled i env) h)
           = trace h @ [SynthesisSpeak (utterance_of p text)]"
    if "i < length (translating h)" "tf_text (translating h ! i) = text" "has_synthesis svc"
    for svc h i
    using that tr by (simp del: step.simps add: translated_step [where tr = "\<lparr>rs_translatedText = text, rs_confidence = 0\<rparr>"])
  have mute: "trace (step svc p (TranslationSettled i env) h)
       = trace h @ [OnError (lit ''Speech synthesis not supported in this browser''),
           Toast (lit ''Translation failed'')
             (lit ''Speech synthesis not supported in this browser'') True]"
    if "i < length (translating h)" "\<not> has_synthesis svc"
    for svc h i
    using that by (simp add: hook_defs)
  from tr speak mute show ?thesis
    by blast
qed

theorem translation_failure_degrades_witness:
  "translateText_try env_down (request_of p0 (lit ''Hello'')) = Inl FetchRejected
   \<and> TranslationService_translateText env_down (request_of p0 (lit ''Hello''))
       = \<lparr>rs_translatedText = lit ''Hello'', rs_confidence = 0\<rparr>
   \<and> isSpeaking (step svc0 p0 (TranslationSettled 0 env_down)
        (step svc0 p0 (CallTranslateText (lit ''Hello'')) initial))
   \<and> trace (step svc0 p0 (TranslationSettled 0 env_down)
        (step svc0 p0 (CallTranslateText (lit ''Hello'')) initial))
       = [TranslateCall (request_of p0 (lit ''Hello'')),
          SynthesisSpeak (utterance_of p0 (lit ''Hello''))]"
proof -
  let ?h = "step svc0 p0 (CallTranslateText (lit ''Hello'')) initial"
  have fails: "translateText_try env_down (request_of p0 (lit ''Hello'')) = Inl FetchRejected"
    by (rule env_down_fails)
  have frame: "0 < length (translating ?h) \<and> tf_text (translating ?h ! 0) = lit ''Hello''"
    by (simp add: translateText_step initial_def del: step.simps)
  have syn: "has_synthesis svc0"
    by (simp add: svc0_def)
  have tr0: "trace ?h = [TranslateCall (request_of p0 (lit ''Hello''))]"
    by (simp add: translateText_step initial_def del: step.simps)
  from translation_failure_degrades [OF fails] frame syn tr0 fails show ?thesis
    by (metis append_Cons append_Nil)
qed




text \<open>
  C10. The confidence the translator returns is 0.95 whenever its \<open>try\<close> block returns,
  whatever the response holds, and 0 whenever it throws; nothing of the response enters
  it. On the direct text path, whose capture confidence is the default 1.0, the result
  handed to the completion callback carries exactly the translator's confidence.
\<close>

theorem translator_confidence_constant:
  "rs_confidence (TranslationService_translateText env req)
     = (case translateText_try env req of Inl e \<Rightarrow> 0 | Inr r \<Rightarrow> 0.95)
   \<and> (has_synthesis svc \<longrightarrow>
        trace (run svc p [CallTranslateText text, TranslationSettled (length (translating h)) env,
                 UtteranceEnd (length (speaking h))] h)
          = trace h @
            [TranslateCall (request_of p text),
             SynthesisSpeak (utterance_of p
               (rs_translatedText (TranslationService_translateText env (request_of p text)))),
             OnTranslationComplete (result_of p text
               (rs_translatedText (TranslationService_translateText env (request_of p text)))
               (rs_confidence (TranslationService_translateText env (request_of p text)))),
             complete_toast text
               (rs_translatedText (TranslationService_translateText env (request_of p text)))])"
proof -
  have c: "rs_confidence (TranslationService_translateText env r)
             = (case translateText_try env r of Inl e \<Rightarrow> 0 | Inr r \<Rightarrow> 0.95)" for r
    by (rule translateText_confidence)
  have "min 1 (rs_confidence (TranslationService_translateText env (request_of p text)))
          = rs_confidence (TranslationService_translateText env (request_of p text))"
    by (simp add: c split: sum.splits)
  then show ?thesis
    by (simp add: c text_session [OF _ refl] del: run.simps)
qed

theorem translator_confidence_constant_witness:
  "rs_confidence (TranslationService_translateText env_ok req0) = 0.95
   \<and> rs_confidence (TranslationService_translateText env_down req0) = 0
   \<and> trace (run svc0 p0 [CallTranslateText (lit ''Hello''), TranslationSettled 0 env_ok,
              UtteranceEnd 0] initial)
       = [TranslateCall (request_of p0 (lit ''Hello'')),
          SynthesisSpeak (utterance_of p0 (lit ''Hola'')),
          OnTranslationComplete (result_of p0 (lit ''Hello'') (lit ''Hola'') 0.95),
          complete_toast (lit ''Hello'') (lit ''Hola'')]"
proof -
  have syn: "has_synthesis svc0"
    by (simp add: svc0_def)
  have i: "length (translating initial) = 0" "length (speaking initial) = 0" "trace initial = []"
    by (simp_all add: initial_def)
  from translator_confidence_constant [of env_ok req0 svc0 p0 "lit ''Hello''" initial] syn i
  show ?thesis
    by (simp add: env_ok_translates env_down_translates del: run.simps)
qed

section \<open>Claims about a capture and a session\<close>

text \<open>
  C1 as stated fails: in the state reached when a transcript has been recognised and the
  translation is in flight (\<open>isTranslating\<close> is set), \<open>startListening\<close> sets \<open>isListening\<close>
  and starts a new capture.
\<close>

theorem startListening_unguarded_counterexample:
  "isTranslating (run svc0 p0 [CallStartListening Started, RecognitionResult (lit ''Hello'') 0.9] initial)
   \<and> \<not> isListening (run svc0 p0 [CallStartListening Started, RecognitionResult (lit ''Hello'') 0.9] initial)
   \<and> isListening (step svc0 p0 (CallStartListening Started)
        (run svc0 p0 [CallStartListening Started, RecognitionResult (lit ''Hello'') 0.9] initial))
   \<and> trace (step svc0 p0 (CallStartListening Started)
        (run svc0 p0 [CallStartListening Started, RecognitionResult (lit ''Hello'') 0.9] initial))
       = trace (run svc0 p0 [CallStartListening Started, RecognitionResult (lit ''Hello'') 0.9] initial)
           @ [RecognitionStart (lit ''en-US'')]
   \<and> step svc0 p0 (CallStartListening Started)
        (run svc0 p0 [CallStartListening Started, RecognitionResult (lit ''Hello'') 0.9] initial)
       \<noteq> run svc0 p0 [CallStartListening Started, RecognitionResult (lit ''Hello'') 0.9] initial"
proof -
  let ?h = "run svc0 p0 [CallStartListening Started, RecognitionResult (lit ''Hello'') 0.9] initial"
  have sup: "isSupported svc0"
    by (simp add: svc0_def isSupported_def)
  have hello: "trim (lit ''Hello'') \<noteq> []"
    by (simp add: trim_def lit_def isWhiteSpace_def)
  have h: "?h = initial\<lparr>isListening := False, isTranslating := True,
       abortController := Some False, recognitionPromise := Some Settled,
       trace := [RecognitionStart (p_fromLanguage p0), TranslateCall (request_of p0 (lit ''Hello''))],
       translating := [\<lparr>tf_text = lit ''Hello'', tf_speechConfidence = 0.9\<rparr>]\<rparr>"
    using sup hello
    by (simp del: step.simps add: startListening_step recognized_step) (simp add: initial_def)
  have s: "step svc0 p0 (CallStartListening Started) ?h =
      ?h\<lparr>isListening := True, abortController := Some False, recognitionPromise := Some Pending,
        trace := trace ?h @ [RecognitionStart (p_fromLanguage p0)]\<rparr>"
    using sup by (rule startListening_step)
  have from0: "p_fromLanguage p0 = lit ''en-US''"
    by (simp add: p0_def)
  have 1: "isTranslating ?h" and 2: "\<not> isListening ?h"
    unfolding h by simp_all
  have 3: "isListening (step svc0 p0 (CallStartListening Started) ?h)"
    by (simp del: run.simps step.simps add: s)
  have 4: "trace (step svc0 p0 (CallStartListening Started) ?h)
             = trace ?h @ [RecognitionStart (lit ''en-US'')]"
    by (simp del: run.simps step.simps add: s from0)
  from 2 3 have 5: "step svc0 p0 (CallStartListening Started) ?h \<noteq> ?h"
    by metis
  from 1 2 3 4 5 show ?thesis
    by blast
qed

text \<open>
  C1, amended. \<open>startListening\<close> does not read the status flags; in every state, idle or
  not: when the browser supports speech and \<^verbatim>\<open>recognition.start()\<close> returns, it sets
  \<open>isListening\<close>, starts a capture and leaves \<open>isTranslating\<close> and \<open>isSpeaking\<close> as they
  are; when \<^verbatim>\<open>recognition.start()\<close> throws, \<open>isListening\<close> ends cleared, no capture is
  started and the error callback is invoked once; when the browser does not support
  speech, no flag changes, no capture is started and the error callback is invoked once.
\<close>

theorem startListening_unguarded:
  "(isSupported svc \<longrightarrow>
      flags (step svc p (CallStartListening Started) h) = (True, isTranslating h, isSpeaking h)
    \<and> trace (step svc p (CallStartListening Started) h)
        = trace h @ [RecognitionStart (p_fromLanguage p)]
    \<and> flags (step svc p (CallStartListening (StartThrows (Error m))) h)
        = (False, isTranslating h, isSpeaking h)
    \<and> trace (step svc p (CallStartListening (StartThrows (Error m))) h)
        = trace h @ [OnError m, Toast (lit ''Speech recognition failed'') m True])
   \<and> (\<not> isSupported svc \<longrightarrow>
      flags (step svc p (CallStartListening start) h) = flags h
    \<and> trace (step svc p (CallStartListening start) h)
        = trace h @ [OnError (lit ''Speech recognition is not supported in this browser''),
            Toast (lit ''Browser not supported'')
              (lit ''Speech recognition is not supported in this browser'') True])"
  by (simp add: hook_defs flags_def)

theorem startListening_unguarded_witness:
  "isSupported svc0
   \<and> flags (initial\<lparr>isSpeaking := True\<rparr>) = (False, False, True)
   \<and> flags (step svc0 p0 (CallStartListening Started) (initial\<lparr>isSpeaking := True\<rparr>))
       = (True, False, True)
   \<and> trace (step svc0 p0 (CallStartListening Started) (initial\<lparr>isSpeaking := True\<rparr>))
       = [RecognitionStart (lit ''en-US'')]
   \<and> \<not> isSupported \<lparr>has_recognition = False, has_synthesis = True\<rparr>
   \<and> flags (step \<lparr>has_recognition = False, has_synthesis = True\<rparr> p0 (CallStartListening Started)
        (initial\<lparr>isSpeaking := True\<rparr>)) = (False, False, True)"
proof -
  have sup: "isSupported svc0" "\<not> isSupported \<lparr>has_recognition = False, has_synthesis = True\<rparr>"
    by (simp_all add: svc0_def isSupported_def)
  have i: "flags (initial\<lparr>isSpeaking := True\<rparr>) = (False, False, True)"
      "trace (initial\<lparr>isSpeaking := True\<rparr>) = []"
      "isTranslating (initial\<lparr>isSpeaking := True\<rparr>) = False"
      "isSpeaking (initial\<lparr>isSpeaking := True\<rparr>) = True"
      "p_fromLanguage p0 = lit ''en-US''"
    by (simp_all add: initial_def flags_def p0_def)
  from startListening_unguarded [of svc0 p0 "initial\<lparr>isSpeaking := True\<rparr>"]
    startListening_unguarded [of "\<lparr>has_recognition = False, has_synthesis = True\<rparr>" p0
      "initial\<lparr>isSpeaking := True\<rparr>" _ Started]
    sup i
  show ?thesis
    by (simp del: step.simps)
qed

text \<open>
  C6 at a permission error: the flags end cleared and the completion callback is not
  invoked, but the error callback is invoked twice with the same message, once by the
  callback that \<open>startListening\<close> hands to \<open>recognizeSpeech\<close> and once by its \<open>catch\<close>.
\<close>

theorem capture_failure_reports_twice:
  "flags (run svc0 p0 [CallStartListening Started, RecognitionError (lit ''not-allowed'')] initial)
     = (False, False, False)
   \<and> trace (run svc0 p0 [CallStartListening Started, RecognitionError (lit ''not-allowed'')] initial)
     = [RecognitionStart (lit ''en-US''),
        OnError (lit ''Speech recognition error: not-allowed''),
        OnError (lit ''Speech recognition error: not-allowed''),
        Toast (lit ''Speech recognition failed'')
          (lit ''Speech recognition error: not-allowed'') True]"
  by (simp add: hook_defs flags_def svc0_def p0_def initial_def lit_def)

text \<open>
  C7. For every run in which the capture succeeds with a transcript that is empty or
  holds white space only, the hook goes from listening back to where it was: \<open>isListening\<close>
  is cleared, the translator and the synthesis are not called, no frame is suspended and
  no callback is invoked. The only event of the run is the start of the capture.
\<close>

theorem blank_transcript_returns_to_idle:
  assumes "isSupported svc" and "\<forall>c \<in> set t. isWhiteSpace c"
  shows "isListening (step svc p (CallStartListening Started) h)
       \<and> run svc p [CallStartListening Started, RecognitionResult t c] h
           = h\<lparr>isListening := False, abortController := Some False,
               recognitionPromise := Some Settled,
               trace := trace h @ [RecognitionStart (p_fromLanguage p)]\<rparr>"
proof -
  have blank: "trim t = []"
    using assms(2) by (simp add: trim_blank)
  show ?thesis
    using assms(1) blank
    by (simp del: step.simps add: startListening_step blank_step)
qed

theorem blank_transcript_returns_to_idle_witness:
  "isSupported svc0
   \<and> isWhiteSpace 0x20 \<and> isWhiteSpace 0x9
   \<and> isListening (step svc0 p0 (CallStartListening Started) initial)
   \<and> run svc0 p0 [CallStartListening Started, RecognitionResult [0x20, 0x9] 0.9] initial
       = initial\<lparr>abortController := Some False, recognitionPromise := Some Settled,
           trace := [RecognitionStart (lit ''en-US'')]\<rparr>"
proof -
  have sup: "isSupported svc0"
    by (simp add: svc0_def isSupported_def)
  have ws: "isWhiteSpace 0x20 \<and> isWhiteSpace 0x9"
    by (simp add: isWhiteSpace_def)
  then have all: "\<forall>c \<in> set [0x20, 0x9]. isWhiteSpace c"
    by simp
  have i: "initial\<lparr>isListening := False, abortController := Some False,
               recognitionPromise := Some Settled,
               trace := trace initial @ [RecognitionStart (p_fromLanguage p0)]\<rparr>
         = initial\<lparr>abortController := Some False, recognitionPromise := Some Settled,
           trace := [RecognitionStart (lit ''en-US'')]\<rparr>"
    by (simp add: initial_def p0_def)
  from blank_transcript_returns_to_idle [OF sup all, of p0 initial "0.9"] sup ws i
  show ?thesis
    by (simp del: step.simps run.simps)
qed

text \<open>
  C8 at a result that arrives after the stop: \<open>stopListening\<close> clears \<open>isListening\<close> and aborts
  the controller, but nothing reads the controller. \<^verbatim>\<open>recognition.stop()\<close> lets the
  recognition return what it has heard so far; when it does, the suspended \<open>startListening\<close>
  resumes, translates, speaks and invokes the completion callback.
\<close>

theorem stopListening_then_result_completes:
  "flags (run svc0 p0 [CallStartListening Started, CallStopListening] initial)
     = (False, False, False)
   \<and> abortController (run svc0 p0 [CallStartListening Started, CallStopListening] initial)
     = Some True
   \<and> trace (run svc0 p0 [CallStartListening Started, CallStopListening,
         RecognitionResult (lit ''Hello'') 0.9, TranslationSettled 0 env_ok, UtteranceEnd 0] initial)
     = [RecognitionStart (lit ''en-US''), RecognitionStop,
        TranslateCall (request_of p0 (lit ''Hello'')),
        SynthesisSpeak (utterance_of p0 (lit ''Hola'')),
        OnTranslationComplete (result_of p0 (lit ''Hello'') (lit ''Hola'') 0.9),
        complete_toast (lit ''Hello'') (lit ''Hola'')]"
proof -
  have hello: "trim (lit ''Hello'') \<noteq> []"
    by (simp add: trim_def lit_def isWhiteSpace_def)
  have sup: "isSupported svc0" "has_synthesis svc0" "has_recognition svc0"
    by (simp_all add: svc0_def isSupported_def)
  have stop: "run svc0 p0 [CallStartListening Started, CallStopListening] initial
      = initial\<lparr>abortController := Some True, recognitionPromise := Some Pending,
          trace := [RecognitionStart (lit ''en-US''), RecognitionStop]\<rparr>"
    using sup by (simp add: hook_defs initial_def p0_def)
  have rest: "run svc0 p0 [RecognitionResult (lit ''Hello'') 0.9, TranslationSettled 0 env_ok, UtteranceEnd 0]
        (initial\<lparr>abortController := Some True, recognitionPromise := Some Pending,
          trace := [RecognitionStart (lit ''en-US''), RecognitionStop]\<rparr>)
      = initial\<lparr>abortController := Some True, recognitionPromise := Some Settled,
          trace := [RecognitionStart (lit ''en-US''), RecognitionStop,
            TranslateCall (request_of p0 (lit ''Hello'')),
            SynthesisSpeak (utterance_of p0 (lit ''Hola'')),
            OnTranslationComplete (result_of p0 (lit ''Hello'') (lit ''Hola'') 0.9),
            complete_toast (lit ''Hello'') (lit ''Hola'')]\<rparr>"
    using sup hello
    by (simp del: step.simps
        add: recognized_step translated_step [OF _ _ refl] spoken_step env_ok_translates
          remove_nth_def initial_def)
  have split: "run svc0 p0 [CallStartListening Started, CallStopListening,
         RecognitionResult (lit ''Hello'') 0.9, TranslationSettled 0 env_ok, UtteranceEnd 0] initial
       = run svc0 p0 [RecognitionResult (lit ''Hello'') 0.9, TranslationSettled 0 env_ok, UtteranceEnd 0]
           (run svc0 p0 [CallStartListening Started, CallStopListening] initial)"
    by simp
  show ?thesis
    unfolding split stop rest by (simp add: flags_def initial_def)
qed

text \<open>
  C4. For every completed voice session, started in any state, the result that the
  completion callback receives carries the minimum of the confidence of the capture and
  the confidence of the translator. More generally, for every suspended
  \<open>translateAndSpeak\<close> in every state, the result built when the translation arrives carries
  the minimum of the confidence the call was made with and the translator's, and the
  completion callback later receives that result as it was built.
\<close>

theorem final_confidence_is_min:
  "(isSupported svc \<and> trim t \<noteq> [] \<longrightarrow>
      trace (run svc p [CallStartListening Started, RecognitionResult t c,
               TranslationSettled (length (translating h)) env,
               UtteranceEnd (length (speaking h))] h)
        = trace h @
          [RecognitionStart (p_fromLanguage p),
           TranslateCall (request_of p t),
           SynthesisSpeak (utterance_of p
             (rs_translatedText (TranslationService_translateText env (request_of p t)))),
           OnTranslationComplete (result_of p t
             (rs_translatedText (TranslationService_translateText env (request_of p t)))
             (min c (rs_confidence (TranslationService_translateText env (request_of p t))))),
           complete_toast t
             (rs_translatedText (TranslationService_translateText env (request_of p t)))])
   \<and> (has_synthesis svc \<and> i < length (translating h) \<longrightarrow>
        confidence (sf_result (last (speaking (step svc p (TranslationSettled i env) h))))
          = min (tf_speechConfidence (translating h ! i))
              (rs_confidence (TranslationService_translateText env
                 (request_of p (tf_text (translating h ! i))))))
   \<and> (j < length (speaking h) \<longrightarrow>
        trace (step svc p (UtteranceEnd j) h)
          = trace h @
            [OnTranslationComplete (sf_result (speaking h ! j)),
             complete_toast (sf_text (speaking h ! j))
               (rs_translatedText (sf_translationResult (speaking h ! j)))])"
proof -
  have session: "trace (run svc p [CallStartListening Started, RecognitionResult t c,
               TranslationSettled (length (translating h)) env,
               UtteranceEnd (length (speaking h))] h)
        = trace h @
          [RecognitionStart (p_fromLanguage p),
           TranslateCall (request_of p t),
           SynthesisSpeak (utterance_of p
             (rs_translatedText (TranslationService_translateText env (request_of p t)))),
           OnTranslationComplete (result_of p t
             (rs_translatedText (TranslationService_translateText env (request_of p t)))
             (min c (rs_confidence (TranslationService_translateText env (request_of p t))))),
           complete_toast t
             (rs_translatedText (TranslationService_translateText env (request_of p t)))]"
    if "isSupported svc" "trim t \<noteq> []"
    using voice_session [OF that refl, of p c h env] by (simp del: run.simps)
  have built: "confidence (sf_result (last (speaking (step svc p (TranslationSettled i env) h))))
          = min (tf_speechConfidence (translating h ! i))
              (rs_confidence (TranslationService_translateText env
                 (request_of p (tf_text (translating h ! i)))))"
    if "has_synthesis svc" "i < length (translating h)"
    using that by (simp del: step.simps add: translated_step [OF _ _ refl] result_of_def)
  have delivered: "trace (step svc p (UtteranceEnd j) h)
          = trace h @
            [OnTranslationComplete (sf_result (speaking h ! j)),
             complete_toast (sf_text (speaking h ! j))
               (rs_translatedText (sf_translationResult (speaking h ! j)))]"
    if "j < length (speaking h)"
    using that by (simp del: step.simps add: spoken_step)
  from session built delivered show ?thesis
    by blast
qed

theorem final_confidence_is_min_witness:
  "isSupported svc0 \<and> trim (lit ''Hello'') \<noteq> []
   \<and> trace (run svc0 p0 [CallStartListening Started, RecognitionResult (lit ''Hello'') 0.9,
               TranslationSettled 0 env_ok, UtteranceEnd 0] initial)
     = [RecognitionStart (lit ''en-US''),
        TranslateCall (request_of p0 (lit ''Hello'')),
        SynthesisSpeak (utterance_of p0 (lit ''Hola'')),
        OnTranslationComplete (result_of p0 (lit ''Hello'') (lit ''Hola'') 0.9),
        complete_toast (lit ''Hello'') (lit ''Hola'')]"
proof -
  have sup: "isSupported svc0"
    by (simp add: svc0_def isSupported_def)
  have hello: "trim (lit ''Hello'') \<noteq> []"
    by (simp add: trim_def lit_def isWhiteSpace_def)
  have i: "length (translating initial) = 0" "length (speaking initial) = 0" "trace initial = []"
      "p_fromLanguage p0 = lit ''en-US''"
    by (simp_all add: initial_def p0_def)
  from final_confidence_is_min [of svc0 "lit ''Hello''" p0 "0.9" initial env_ok] sup hello i
  show ?thesis
    by (simp add: env_ok_translates del: run.simps)
qed

section \<open>Claims about the status flags\<close>

lemma single_pipeline_flags:
  "single_pipeline h \<Longrightarrow>
   \<not> (isListening h \<and> (isTranslating h \<or> isSpeaking h)) \<and> (isSpeaking h \<longrightarrow> isTranslating h)"
  by (auto simp: single_pipeline_def split: if_splits)

lemma one_frame_translating:
  "length xs + length ys = 1 \<Longrightarrow> i < length xs \<Longrightarrow> ys = [] \<and> remove_nth i xs = []"
  by (cases xs; cases ys) (simp_all add: remove_nth_def)

lemma one_frame_speaking:
  "length xs + length ys = 1 \<Longrightarrow> i < length ys \<Longrightarrow> xs = [] \<and> remove_nth i ys = []"
  by (cases xs; cases ys) (simp_all add: remove_nth_def)

lemma single_pipeline_translated:
  assumes "single_pipeline h" and "i < length (translating h)"
  shows "single_pipeline (step svc p (TranslationSettled i env) h)"
proof -
  from assms have one: "length (translating h) + length (speaking h) = 1"
    and fl: "isTranslating h" "\<not> isListening h" "recognitionPromise h \<noteq> Some Pending" "\<not> isSpeaking h"
    by (auto simp: single_pipeline_def split: if_splits)
  from one_frame_translating [OF one assms(2)]
  have fr: "speaking h = []" "remove_nth i (translating h) = []"
    by simp_all
  show ?thesis
  proof (cases "has_synthesis svc")
    case True
    with assms(2) fr fl show ?thesis
      by (simp del: step.simps add: translated_step [OF _ _ refl] single_pipeline_def)
  next
    case False
    with assms(2) fr fl show ?thesis
      by (simp add: single_pipeline_def translateAndSpeak_translated_def synthesizeSpeech_def
          translateAndSpeak_catch_def setIsSpeaking_def setIsTranslating_def onError_def toast_def
          emit_def Let_def)
  qed
qed

lemma single_pipeline_uttered:
  assumes "single_pipeline h" and "i < length (speaking h)"
  shows "single_pipeline (step svc p (UtteranceEnd i) h)"
    and "single_pipeline (step svc p (UtteranceError i err) h)"
proof -
  from assms have one: "length (translating h) + length (speaking h) = 1"
    by (auto simp: single_pipeline_def split: if_splits)
  from one_frame_speaking [OF one assms(2)]
  have fr: "translating h = []" "remove_nth i (speaking h) = []"
    by simp_all
  from assms(2) fr show "single_pipeline (step svc p (UtteranceEnd i) h)"
    by (simp del: step.simps add: spoken_step single_pipeline_def)
  from assms(2) fr show "single_pipeline (step svc p (UtteranceError i err) h)"
    by (simp add: single_pipeline_def translateAndSpeak_catch_def setIsSpeaking_def
        setIsTranslating_def onError_def toast_def emit_def Let_def)
qed

lemma single_pipeline_step:
  assumes "single_pipeline h" and "\<not> starts_pipeline i"
  shows "single_pipeline (step svc p i h)"
proof (cases i)
  case (CallStartListening start)
  with assms(2) show ?thesis by simp
next
  case CallStopListening
  with assms(1) show ?thesis
    by (auto simp: single_pipeline_def stopListening_def setIsListening_def emit_def Let_def
        split: option.splits if_splits)
next
  case (CallStopSpeaking speaking_now)
  with assms(1) show ?thesis
    by (auto simp: single_pipeline_def stopSpeaking_def setIsSpeaking_def emit_def Let_def
        split: if_splits)
next
  case (CallTranslateText s)
  with assms(2) show ?thesis by simp
next
  case (RecognitionResult transcript conf)
  with assms(1) show ?thesis
    by (auto simp: single_pipeline_def recognition_onresult_def startListening_recognized_def
        translateAndSpeak_def setIsListening_def setIsTranslating_def emit_def Let_def
        split: option.splits promise_state.splits if_splits)
next
  case (RecognitionError err)
  with assms(1) show ?thesis
    by (auto simp: single_pipeline_def recognition_onerror_def startListening_onError_def
        startListening_catch_def setIsListening_def onError_def toast_def emit_def Let_def
        split: option.splits promise_state.splits if_splits)
next
  case (TranslationSettled i env)
  with assms(1) show ?thesis
    using single_pipeline_translated [of h i svc p env]
    by (cases "i < length (translating h)") simp_all
next
  case (UtteranceEnd i)
  with assms(1) show ?thesis
    using single_pipeline_uttered(1) [of h i svc p]
    by (cases "i < length (speaking h)") simp_all
next
  case (UtteranceError i err)
  with assms(1) show ?thesis
    using single_pipeline_uttered(2) [of h i svc p err]
    by (cases "i < length (speaking h)") simp_all
qed

lemma single_pipeline_first:
  assumes "idle h"
  shows "single_pipeline (step svc p i h)"
proof (cases "starts_pipeline i")
  case False
  from assms have "single_pipeline h"
    by (simp add: idle_def single_pipeline_def)
  then show ?thesis
    using False by (rule single_pipeline_step)
next
  case True
  then show ?thesis
  proof (cases i)
    case (CallStartListening start)
    with assms show ?thesis
      by (cases start) (simp_all add: idle_def single_pipeline_def hook_defs)
  next
    case (CallTranslateText s)
    with assms show ?thesis
      by (simp add: idle_def single_pipeline_def hook_defs)
  qed simp_all
qed

lemma single_pipeline_run:
  "single_pipeline h \<Longrightarrow> \<forall>j \<in> set rest. \<not> starts_pipeline j \<Longrightarrow>
   single_pipeline (run svc p rest h)"
proof (induction rest arbitrary: h)
  case Nil
  then show ?case by simp
next
  case (Cons j rest)
  from Cons.prems have "single_pipeline (step svc p j h)"
    by (simp add: single_pipeline_step)
  with Cons show ?case
    by simp
qed

text \<open>
  In a run with a single pipeline (a first input in an idle state, then any inputs that
  start no other pipeline), \<open>isListening\<close> is never set together with \<open>isTranslating\<close> or
  \<open>isSpeaking\<close>, and \<open>isSpeaking\<close> is only set while \<open>isTranslating\<close> is set too.
\<close>

lemma flags_of_single_pipeline:
  assumes "idle h" and "\<forall>j \<in> set rest. \<not> starts_pipeline j"
  shows "\<not> (isListening (run svc p (first # rest) h)
            \<and> (isTranslating (run svc p (first # rest) h)
               \<or> isSpeaking (run svc p (first # rest) h)))
       \<and> (isSpeaking (run svc p (first # rest) h)
            \<longrightarrow> isTranslating (run svc p (first # rest) h))"
proof -
  have "single_pipeline (step svc p first h)"
    using assms(1) by (rule single_pipeline_first)
  then have "single_pipeline (run svc p rest (step svc p first h))"
    using assms(2) by (rule single_pipeline_run)
  then have "single_pipeline (run svc p (first # rest) h)"
    by simp
  then show ?thesis
    by (rule single_pipeline_flags)
qed

text \<open>
  C2 at the speaking stage of a voice session: while the translation is spoken, both
  \<open>isTranslating\<close> and \<open>isSpeaking\<close> are set. The hook clears \<open>isListening\<close> and \<open>isSpeaking\<close>
  when their stage ends, but \<open>isTranslating\<close> only in the \<open>finally\<close> block of
  \<open>translateAndSpeak\<close>, after the playback.
\<close>

theorem two_flags_while_speaking:
  "flags (run svc0 p0 [CallStartListening Started, RecognitionResult (lit ''Hello'') 0.9,
            TranslationSettled 0 env_ok] initial) = (False, True, True)"
proof -
  have hello: "trim (lit ''Hello'') \<noteq> []"
    by (simp add: trim_def lit_def isWhiteSpace_def)
  have sup: "isSupported svc0" "has_synthesis svc0"
    by (simp_all add: svc0_def isSupported_def)
  from sup hello show ?thesis
    by (simp del: step.simps
        add: startListening_step recognized_step translated_step [OF _ _ refl] initial_def flags_def)
qed

section \<open>Claims about the direct text path\<close>

lemma map_remove_nth: "map f (remove_nth i xs) = remove_nth i (map f xs)"
  by (simp add: remove_nth_def take_map drop_map)

lemma same_downstream_start:
  assumes "isSupported svc" and "trim t \<noteq> []"
  shows "same_downstream [RecognitionStart (p_fromLanguage p)]
           (run svc p [CallStartListening Started, RecognitionResult t c] initial)
           (run svc p [CallTranslateText t] initial)"
  using assms
  by (simp del: step.simps
      add: startListening_step recognized_step translateText_step same_downstream_def
        flags_def initial_def)

lemma same_downstream_translated:
  assumes sim: "same_downstream pre h1 h2"
  shows "same_downstream pre (step svc p (TranslationSettled i env) h1)
           (step svc p (TranslationSettled i env) h2)"
proof (cases "i < length (translating h1)")
  case False
  from sim have "length (translating h1) = length (translating h2)"
    by (auto simp: same_downstream_def dest: map_eq_imp_length_eq)
  with False sim show ?thesis
    by simp
next
  case True
  from sim have len: "length (translating h1) = length (translating h2)"
    by (auto simp: same_downstream_def dest: map_eq_imp_length_eq)
  with True have i2: "i < length (translating h2)"
    by simp
  from sim have "map tf_text (translating h1) ! i = map tf_text (translating h2) ! i"
    by (simp add: same_downstream_def)
  with True i2 have same_text: "tf_text (translating h1 ! i) = tf_text (translating h2 ! i)"
    by simp
  from sim have rest: "map tf_text (remove_nth i (translating h1))
      = map tf_text (remove_nth i (translating h2))"
    by (simp add: same_downstream_def map_remove_nth)
  show ?thesis
  proof (cases "has_synthesis svc")
    case syn: True
    from sim rest same_text show ?thesis
      by (simp del: step.simps
          add: translated_step [OF True syn refl] translated_step [OF i2 syn refl]
            same_downstream_def flags_def frame_shape_def result_of_def)
  next
    case False
    with sim rest True i2 show ?thesis
      by (simp add: same_downstream_def flags_def translateAndSpeak_translated_def
          synthesizeSpeech_def translateAndSpeak_catch_def setIsSpeaking_def setIsTranslating_def
          onError_def toast_def emit_def Let_def)
  qed
qed

lemma same_downstream_uttered:
  assumes sim: "same_downstream pre h1 h2"
  shows "same_downstream pre (step svc p (UtteranceEnd i) h1) (step svc p (UtteranceEnd i) h2)"
    and "same_downstream pre (step svc p (UtteranceError i err) h1)
           (step svc p (UtteranceError i err) h2)"
proof -
  from sim have len: "length (speaking h1) = length (speaking h2)"
    by (auto simp: same_downstream_def dest: map_eq_imp_length_eq)
  from sim have rest: "map frame_shape (remove_nth i (speaking h1))
      = map frame_shape (remove_nth i (speaking h2))"
    by (simp add: same_downstream_def map_remove_nth)
  have frame: "frame_shape (speaking h1 ! i) = frame_shape (speaking h2 ! i)"
    if "i < length (speaking h1)"
  proof -
    from sim have "map frame_shape (speaking h1) ! i = map frame_shape (speaking h2) ! i"
      by (simp add: same_downstream_def)
    with that len show ?thesis
      by simp
  qed
  show "same_downstream pre (step svc p (UtteranceEnd i) h1) (step svc p (UtteranceEnd i) h2)"
  proof (cases "i < length (speaking h1)")
    case True
    with len have i2: "i < length (speaking h2)"
      by simp
    from frame [OF True] sim rest show ?thesis
      by (simp del: step.simps
          add: spoken_step [OF True] spoken_step [OF i2] same_downstream_def flags_def
            frame_shape_def complete_toast_def)
  next
    case False
    with len sim show ?thesis
      by simp
  qed
  show "same_downstream pre (step svc p (UtteranceError i err) h1)
          (step svc p (UtteranceError i err) h2)"
    using sim rest len
    by (simp add: same_downstream_def flags_def translateAndSpeak_catch_def setIsSpeaking_def
        setIsTranslating_def onError_def toast_def emit_def Let_def)
qed

lemma same_downstream_step:
  assumes "same_downstream pre h1 h2" and "downstream d"
  shows "same_downstream pre (step svc p d h1) (step svc p d h2)"
proof (cases d)
  case (CallStopSpeaking speaking_now)
  with assms(1) show ?thesis
    by (simp add: same_downstream_def flags_def stopSpeaking_def setIsSpeaking_def emit_def Let_def)
next
  case (TranslationSettled i env)
  with assms(1) show ?thesis
    by (simp only: same_downstream_translated)
next
  case (UtteranceEnd i)
  with assms(1) show ?thesis
    by (simp only: same_downstream_uttered)
next
  case (UtteranceError i err)
  with assms(1) show ?thesis
    by (simp only: same_downstream_uttered)
qed (use assms(2) in simp_all)

lemma same_downstream_run:
  "same_downstream pre h1 h2 \<Longrightarrow> \<forall>d \<in> set ds. downstream d \<Longrightarrow>
   statuses svc p ds h1 = statuses svc p ds h2
   \<and> same_downstream pre (run svc p ds h1) (run svc p ds h2)"
proof (induction ds arbitrary: h1 h2)
  case Nil
  then show ?case
    by (simp add: same_downstream_def)
next
  case (Cons d ds)
  from Cons.prems have "same_downstream pre (step svc p d h1) (step svc p d h2)"
    by (simp add: same_downstream_step)
  with Cons.IH [of "step svc p d h1" "step svc p d h2"] Cons.prems show ?case
    by (simp add: same_downstream_def)
qed

text \<open>
  C9 as stated fails at the empty text: the direct path translates it, speaks it and
  completes, while the voice path, after a successful capture of it, starts no
  translation and stays idle.
\<close>

theorem blank_text_paths_differ_counterexample:
  "statuses svc0 p0 [TranslationSettled 0 env_ok, UtteranceEnd 0]
       (run svc0 p0 [CallTranslateText []] initial)
     = [(False, True, False), (False, True, True), (False, False, False)]
   \<and> statuses svc0 p0 [TranslationSettled 0 env_ok, UtteranceEnd 0]
       (run svc0 p0 [CallStartListening Started, RecognitionResult [] 0.9] initial)
     = [(False, False, False), (False, False, False), (False, False, False)]
   \<and> trace (run svc0 p0 [CallStartListening Started, RecognitionResult [] 0.9,
         TranslationSettled 0 env_ok, UtteranceEnd 0] initial)
     = [RecognitionStart (lit ''en-US'')]
   \<and> trace (run svc0 p0 [CallTranslateText [], TranslationSettled 0 env_ok, UtteranceEnd 0] initial)
     = [TranslateCall (request_of p0 []),
        SynthesisSpeak (utterance_of p0 (lit ''Hola'')),
        OnTranslationComplete (result_of p0 [] (lit ''Hola'') 0.95),
        complete_toast [] (lit ''Hola'')]"
proof -
  have sup: "isSupported svc0" "has_synthesis svc0"
    by (simp_all add: svc0_def isSupported_def)
  have blank: "trim [] = []"
    by (simp add: trim_def)
  have voice: "run svc0 p0 [CallStartListening Started, RecognitionResult [] 0.9] initial
      = initial\<lparr>abortController := Some False, recognitionPromise := Some Settled,
          trace := [RecognitionStart (lit ''en-US'')]\<rparr>"
    using sup blank
    by (simp del: step.simps add: startListening_step blank_step) (simp add: initial_def p0_def)
  have idle: "step svc0 p0 d (initial\<lparr>abortController := Some False,
        recognitionPromise := Some Settled, trace := [RecognitionStart (lit ''en-US'')]\<rparr>)
      = initial\<lparr>abortController := Some False, recognitionPromise := Some Settled,
          trace := [RecognitionStart (lit ''en-US'')]\<rparr>"
    if "d = TranslationSettled 0 env_ok \<or> d = UtteranceEnd 0" for d
    using that by (auto simp: initial_def)
  have direct1: "run svc0 p0 [CallTranslateText []] initial
      = initial\<lparr>isTranslating := True, trace := [TranslateCall (request_of p0 [])],
          translating := [\<lparr>tf_text = [], tf_speechConfidence = 1\<rparr>]\<rparr>"
    by (simp del: step.simps add: translateText_step) (simp add: initial_def)
  have direct: "run svc0 p0 [CallTranslateText [], TranslationSettled 0 env_ok, UtteranceEnd 0] initial
      = initial\<lparr>trace := [TranslateCall (request_of p0 []),
          SynthesisSpeak (utterance_of p0 (lit ''Hola'')),
          OnTranslationComplete (result_of p0 [] (lit ''Hola'') 0.95),
          complete_toast [] (lit ''Hola'')]\<rparr>"
    using text_session [OF sup(2) refl, of p0 "[]" initial env_ok]
    by (simp del: run.simps add: env_ok_translates initial_def)
  have s1: "statuses svc0 p0 [TranslationSettled 0 env_ok, UtteranceEnd 0]
       (run svc0 p0 [CallTranslateText []] initial)
     = [(False, True, False), (False, True, True), (False, False, False)]"
    unfolding direct1 using sup
    by (simp del: step.simps
        add: translated_step [OF _ _ refl] spoken_step flags_def initial_def remove_nth_def)
  have s2: "statuses svc0 p0 [TranslationSettled 0 env_ok, UtteranceEnd 0]
       (run svc0 p0 [CallStartListening Started, RecognitionResult [] 0.9] initial)
     = [(False, False, False), (False, False, False), (False, False, False)]"
    unfolding voice by (simp del: step.simps add: idle) (simp add: flags_def initial_def)
  have split: "run svc0 p0 [CallStartListening Started, RecognitionResult [] 0.9,
         TranslationSettled 0 env_ok, UtteranceEnd 0] initial
      = run svc0 p0 [TranslationSettled 0 env_ok, UtteranceEnd 0]
          (run svc0 p0 [CallStartListening Started, RecognitionResult [] 0.9] initial)"
    by simp
  have t2: "trace (run svc0 p0 [CallStartListening Started, RecognitionResult [] 0.9,
         TranslationSettled 0 env_ok, UtteranceEnd 0] initial)
     = [RecognitionStart (lit ''en-US'')]"
    unfolding split voice by (simp del: step.simps add: idle)
  from s1 s2 t2 direct show ?thesis
    by simp
qed

text \<open>
  C9, amended. For every text that is not blank, the direct text path and the voice path
  after a successful capture of that text go through the same status flags at every
  observable point, whatever the translating and speaking stages receive, and produce
  the same events with results of the same shape: the same fields and the same values but
  for the confidence. The voice path has the start of the capture in front. The
  confidence is computed with 1.0 in place of the confidence of the capture: the direct
  path suspends \<open>translateAndSpeak\<close> with the speech confidence 1 where the voice path
  suspends it with the confidence \<open>c\<close> of the capture, and a completed direct session
  hands the completion callback the minimum of 1 and the translator's confidence where
  the voice session hands it the minimum of \<open>c\<close> and the translator's confidence.
\<close>

theorem text_path_matches_voice_path:
  assumes "isSupported svc" and "trim t \<noteq> []" and "\<forall>d \<in> set ds. downstream d"
  shows "statuses svc p ds (run svc p [CallStartListening Started, RecognitionResult t c] initial)
           = statuses svc p ds (run svc p [CallTranslateText t] initial)
       \<and> map shape (trace (run svc p (CallStartListening Started # RecognitionResult t c # ds) initial))
           = RecognitionStart (p_fromLanguage p)
               # map shape (trace (run svc p (CallTranslateText t # ds) initial))
       \<and> translating (run svc p [CallTranslateText t] initial)
           = [\<lparr>tf_text = t, tf_speechConfidence = 1\<rparr>]
       \<and> translating (run svc p [CallStartListening Started, RecognitionResult t c] initial)
           = [\<lparr>tf_text = t, tf_speechConfidence = c\<rparr>]
       \<and> trace (run svc p [CallTranslateText t, TranslationSettled 0 env, UtteranceEnd 0] initial)
           = [TranslateCall (request_of p t),
              SynthesisSpeak (utterance_of p
                (rs_translatedText (TranslationService_translateText env (request_of p t)))),
              OnTranslationComplete (result_of p t
                (rs_translatedText (TranslationService_translateText env (request_of p t)))
                (min 1 (rs_confidence (TranslationService_translateText env (request_of p t))))),
              complete_toast t
                (rs_translatedText (TranslationService_translateText env (request_of p t)))]
       \<and> trace (run svc p [CallStartListening Started, RecognitionResult t c,
                  TranslationSettled 0 env, UtteranceEnd 0] initial)
           = [RecognitionStart (p_fromLanguage p),
              TranslateCall (request_of p t),
              SynthesisSpeak (utterance_of p
                (rs_translatedText (TranslationService_translateText env (request_of p t)))),
              OnTranslationComplete (result_of p t
                (rs_translatedText (TranslationService_translateText env (request_of p t)))
                (min c (rs_confidence (TranslationService_translateText env (request_of p t))))),
              complete_toast t
                (rs_translatedText (TranslationService_translateText env (request_of p t)))]"
proof -
  let ?hv = "run svc p [CallStartListening Started, RecognitionResult t c] initial"
  let ?hd = "run svc p [CallTranslateText t] initial"
  have syn: "has_synthesis svc"
    using assms(1) by (simp add: isSupported_def)
  have start: "same_downstream [RecognitionStart (p_fromLanguage p)] ?hv ?hd"
    using assms(1,2) by (rule same_downstream_start)
  from same_downstream_run [OF start assms(3), of svc p]
  have st: "statuses svc p ds ?hv = statuses svc p ds ?hd"
    and sim: "same_downstream [RecognitionStart (p_fromLanguage p)]
                (run svc p ds ?hv) (run svc p ds ?hd)"
    by simp_all
  have v: "run svc p (CallStartListening Started # RecognitionResult t c # ds) initial
             = run svc p ds ?hv"
    by simp
  have d: "run svc p (CallTranslateText t # ds) initial = run svc p ds ?hd"
    by simp
  from sim have "map shape (trace (run svc p ds ?hv))
      = RecognitionStart (p_fromLanguage p) # map shape (trace (run svc p ds ?hd))"
    by (simp add: same_downstream_def)
  with st have shapes: "statuses svc p ds ?hv = statuses svc p ds ?hd
       \<and> map shape (trace (run svc p (CallStartListening Started # RecognitionResult t c # ds) initial))
           = RecognitionStart (p_fromLanguage p)
               # map shape (trace (run svc p (CallTranslateText t # ds) initial))"
    unfolding v d by simp
  have fd: "translating ?hd = [\<lparr>tf_text = t, tf_speechConfidence = 1\<rparr>]"
    by (simp del: step.simps add: translateText_step initial_def)
  have fv: "translating ?hv = [\<lparr>tf_text = t, tf_speechConfidence = c\<rparr>]"
    using assms(1,2)
    by (simp del: step.simps add: startListening_step recognized_step initial_def)
  have i: "length (translating initial) = 0" "length (speaking initial) = 0" "trace initial = []"
    by (simp_all add: initial_def)
  have td: "trace (run svc p [CallTranslateText t, TranslationSettled 0 env, UtteranceEnd 0] initial)
           = [TranslateCall (request_of p t),
              SynthesisSpeak (utterance_of p
                (rs_translatedText (TranslationService_translateText env (request_of p t)))),
              OnTranslationComplete (result_of p t
                (rs_translatedText (TranslationService_translateText env (request_of p t)))
                (min 1 (rs_confidence (TranslationService_translateText env (request_of p t))))),
              complete_toast t
                (rs_translatedText (TranslationService_translateText env (request_of p t)))]"
    using text_session [OF syn refl, of p t initial env] i by (simp del: run.simps)
  have tv: "trace (run svc p [CallStartListening Started, RecognitionResult t c,
                  TranslationSettled 0 env, UtteranceEnd 0] initial)
           = [RecognitionStart (p_fromLanguage p),
              TranslateCall (request_of p t),
              SynthesisSpeak (utterance_of p
                (rs_translatedText (TranslationService_translateText env (request_of p t)))),
              OnTranslationComplete (result_of p t
                (rs_translatedText (TranslationService_translateText env (request_of p t)))
                (min c (rs_confidence (TranslationService_translateText env (request_of p t))))),
              complete_toast t
                (rs_translatedText (TranslationService_translateText env (request_of p t)))]"
    using voice_session [OF assms(1,2) refl, of p c initial env] i by (simp del: run.simps)
  from shapes fd fv td tv show ?thesis
    by blast
qed

theorem text_path_matches_voice_path_witness:
  "isSupported svc0 \<and> trim (lit ''Hello'') \<noteq> []
   \<and> downstream (TranslationSettled 0 env_ok) \<and> downstream (UtteranceEnd 0)
   \<and> statuses svc0 p0 [TranslationSettled 0 env_ok, UtteranceEnd 0]
       (run svc0 p0 [CallStartListening Started, RecognitionResult (lit ''Hello'') 0.9] initial)
     = statuses svc0 p0 [TranslationSettled 0 env_ok, UtteranceEnd 0]
       (run svc0 p0 [CallTranslateText (lit ''Hello'')] initial)
   \<and> statuses svc0 p0 [TranslationSettled 0 env_ok, UtteranceEnd 0]
       (run svc0 p0 [CallTranslateText (lit ''Hello'')] initial)
     = [(False, True, False), (False, True, True), (False, False, False)]
   \<and> translating (run svc0 p0 [CallTranslateText (lit ''Hello'')] initial)
     = [\<lparr>tf_text = lit ''Hello'', tf_speechConfidence = 1\<rparr>]
   \<and> translating (run svc0 p0 [CallStartListening Started, RecognitionResult (lit ''Hello'') 0.9] initial)
     = [\<lparr>tf_text = lit ''Hello'', tf_speechConfidence = 0.9\<rparr>]
   \<and> trace (run svc0 p0 [CallTranslateText (lit ''Hello''), TranslationSettled 0 env_ok,
         UtteranceEnd 0] initial)
     = [TranslateCall (request_of p0 (lit ''Hello'')),
        SynthesisSpeak (utterance_of p0 (lit ''Hola'')),
        OnTranslationComplete (result_of p0 (lit ''Hello'') (lit ''Hola'') 0.95),
        complete_toast (lit ''Hello'') (lit ''Hola'')]
   \<and> trace (run svc0 p0 [CallStartListening Started, RecognitionResult (lit ''Hello'') 0.9,
         TranslationSettled 0 env_ok, UtteranceEnd 0] initial)
     = [RecognitionStart (lit ''en-US''),
        TranslateCall (request_of p0 (lit ''Hello'')),
        SynthesisSpeak (utterance_of p0 (lit ''Hola'')),
        OnTranslationComplete (result_of p0 (lit ''Hello'') (lit ''Hola'') 0.9),
        complete_toast (lit ''Hello'') (lit ''Hola'')]"
proof -
  have sup: "isSupported svc0" "has_synthesis svc0"
    by (simp_all add: svc0_def isSupported_def)
  have hello: "trim (lit ''Hello'') \<noteq> []"
    by (simp add: trim_def lit_def isWhiteSpace_def)
  have ds: "\<forall>d \<in> set [TranslationSettled 0 env_ok, UtteranceEnd 0]. downstream d"
    by simp
  have from0: "p_fromLanguage p0 = lit ''en-US''"
    by (simp add: p0_def)
  have direct1: "run svc0 p0 [CallTranslateText (lit ''Hello'')] initial
      = initial\<lparr>isTranslating := True, trace := [TranslateCall (request_of p0 (lit ''Hello''))],
          translating := [\<lparr>tf_text = lit ''Hello'', tf_speechConfidence = 1\<rparr>]\<rparr>"
    by (simp del: step.simps add: translateText_step) (simp add: initial_def)
  have s1: "statuses svc0 p0 [TranslationSettled 0 env_ok, UtteranceEnd 0]
       (run svc0 p0 [CallTranslateText (lit ''Hello'')] initial)
     = [(False, True, False), (False, True, True), (False, False, False)]"
    unfolding direct1 using sup
    by (simp del: step.simps
        add: translated_step [OF _ _ refl] spoken_step flags_def initial_def remove_nth_def)
  from text_path_matches_voice_path [OF sup(1) hello ds, of p0 "0.9" env_ok] sup hello s1 from0
  show ?thesis
    by (simp add: env_ok_translates del: run.simps statuses.simps)
qed

end
